theory Spec2Isabelle
  imports Complex_Main "HOL-Library.Multiset"
begin

section \<open>Errors\<close>

text \<open>
  Every exception the modelled code can raise is a value.  \<open>MathDomainError\<close> is the
  \<open>ValueError\<close> of \<open>math.sqrt\<close> and \<open>math.asin\<close> outside their domains,
  \<open>IndexError\<close> the failure of \<open>.values[0]\<close> on an empty selection,
  \<open>KeyError\<close> a label that a table or a dictionary does not have,
  \<open>ShapeError\<close> an assignment whose value does not fit the selected cells, and
  \<open>ServiceError\<close> a failed request to an external data service.

  Python floats are modelled as real numbers: the arithmetic is exact, and rounding is
  outside the model.  A numpy division by zero does not raise; it yields \<open>inf\<close> or
  \<open>nan\<close>.  The reals have no such values, so a computation that would produce one
  ends in \<open>NonFinite\<close> here: that outcome stands for a table holding non-finite
  entries, not for an exception.
\<close>

datatype error = MathDomainError | IndexError | KeyError | ShapeError | NonFinite | ServiceError

section \<open>Great-circle distance (te\_wind.py, lines 14--29)\<close>

text \<open>
  \<open>math.sqrt\<close> raises on a negative argument and \<open>math.asin\<close> raises outside
  \<open>[-1, 1]\<close>; both raises are branches of the model.  The argument of \<open>asin\<close> is a
  square root, hence never below \<open>-1\<close>.

  This is the function in exact arithmetic.  The program computes it in floating point,
  where every operation is rounded.  For latitudes in \<open>[-\<pi>/2, \<pi>/2]\<close> both summands
  under the square root are non-negative and so is their rounded sum.  For a latitude
  outside that interval the product of the cosines can be negative, and rounding can then
  leave the sum slightly below zero where the exact value is zero or more: at
  \<open>(1.0, 0, 2.141592653589793, \<pi>)\<close> the floating-point argument is \<open>-1.1e-16\<close> and
  \<open>math.sqrt\<close> raises.  The exact function never takes these branches, so nothing
  proved of it says that the program does not raise.
\<close>

definition R :: real where
  "R = 6368"

definition haversin :: "real \<Rightarrow> real" where
  "haversin x = (sin (x / 2))\<^sup>2"

definition hav_arg :: "real \<Rightarrow> real \<Rightarrow> real \<Rightarrow> real \<Rightarrow> real" where
  "hav_arg lat1 lon1 lat2 lon2 =
     haversin (lat2 - lat1) + cos lat1 * cos lat2 * haversin (lon2 - lon1)"

definition greatCircleDistance :: "real \<Rightarrow> real \<Rightarrow> real \<Rightarrow> real \<Rightarrow> error + real" where
  "greatCircleDistance lat1 lon1 lat2 lon2 =
     (let a = hav_arg lat1 lon1 lat2 lon2 in
      if a < 0 then Inl MathDomainError
      else if 1 < sqrt a then Inl MathDomainError
      else Inr (R * 2 * arcsin (sqrt a)))"

section \<open>Decimal rendering of integers\<close>

text \<open>Python's \<open>str\<close> and \<open>%d\<close> on an integer.\<close>

definition digit :: "nat \<Rightarrow> char" where
  "digit d = char_of (48 + d)"

fun str_nat :: "nat \<Rightarrow> string" where
  "str_nat n = (if n < 10 then [digit n] else str_nat (n div 10) @ [digit (n mod 10)])"

declare str_nat.simps [simp del]

definition str_int :: "int \<Rightarrow> string" where
  "str_int i = (if i < 0 then CHR ''-'' # str_nat (nat (- i)) else str_nat (nat i))"

section \<open>Wind farm site matcher (te\_wind.py, lines 70--102)\<close>



text \<open>A row of the returned frame: index \<open>plantID\<close>, columns \<open>siteID\<close>, \<open>capacity\<close>, \<open>dist\<close>.\<close>

record site_match =
  match_plantID :: int
  siteID :: int
  match_capacity :: real
  dist :: real






text \<open>\<open>.values[0]\<close>: the first selected entry, or \<open>IndexError\<close> on an empty selection.\<close>

fun first_value :: "'a list \<Rightarrow> error + 'a" where
  "first_value [] = Inl IndexError"
| "first_value (x # xs) = Inr x"




section \<open>Timestamps, dictionaries and frames\<close>

text \<open>
  A timestamp carries the calendar fields the code reads (\<open>.year\<close>, \<open>.month\<close>) and its
  absolute position in time, counted in minutes; the calendar itself belongs to pandas.
  The hour a timestamp falls in is its minute count divided by 60.
\<close>

record timestamp =
  year :: int
  month :: nat
  minutes :: nat

definition hour_of :: "timestamp \<Rightarrow> nat" where
  "hour_of t = minutes t div 60"

text \<open>Lines 133--136: the month label, e.g. \<open>2016-01\<close>.\<close>

definition month_label :: "int \<Rightarrow> nat \<Rightarrow> string" where
  "month_label y m =
     (if m < 10 then str_int y @ ''-0'' @ str_nat m else str_int y @ ''-'' @ str_nat m)"

text \<open>
  Selecting rows of a \<open>DatetimeIndex\<close> by a month label (\<open>helper_df[month]\<close>,
  \<open>.loc[month, ...]\<close>) takes the timestamps of that month, that is, those whose own
  label is the given one.  Only labels of the form the fetcher builds are modelled.
\<close>

definition stamp_label :: "timestamp \<Rightarrow> string" where
  "stamp_label t = month_label (year t) (month t)"

text \<open>
  \<open>drop_duplicates\<close> and \<open>unique\<close> keep the first occurrence of every key, in order.
\<close>

fun drop_duplicates_from :: "('a \<Rightarrow> 'k) \<Rightarrow> 'k list \<Rightarrow> 'a list \<Rightarrow> 'a list" where
  "drop_duplicates_from f seen [] = []"
| "drop_duplicates_from f seen (x # xs) =
     (if f x \<in> set seen then drop_duplicates_from f seen xs
      else x # drop_duplicates_from f (f x # seen) xs)"

definition drop_duplicates :: "('a \<Rightarrow> 'k) \<Rightarrow> 'a list \<Rightarrow> 'a list" where
  "drop_duplicates f xs = drop_duplicates_from f [] xs"

definition unique :: "'a list \<Rightarrow> 'a list" where
  "unique xs = drop_duplicates (\<lambda>x. x) xs"

text \<open>
  A Python dictionary is an association list in insertion order; \<open>d[k] = v\<close> replaces
  the value of a key that is present and appends a new key otherwise.
\<close>

fun dict_set :: "'k \<Rightarrow> 'v \<Rightarrow> ('k \<times> 'v) list \<Rightarrow> ('k \<times> 'v) list" where
  "dict_set k v [] = [(k, v)]"
| "dict_set k v ((k', v') # d) =
     (if k' = k then (k, v) # d else (k', v') # dict_set k v d)"

text \<open>
  The frame the resource-data service returns for one site and one month: the columns
  \<open>power\<close> and \<open>wind_speed\<close>, row by row.
\<close>

record frame =
  power :: "real list"
  wind_speed :: "real list"

section \<open>Wind resource data fetcher (te\_wind.py, lines 105--157)\<close>

text \<open>
  Line 155 divides the whole frame returned by \<open>get_nc_data_from_url\<close> by
  \<open>capacity_i\<close>: a frame divided by a scalar divides every column.
\<close>

definition frame_div :: "frame \<Rightarrow> real \<Rightarrow> error + frame" where
  "frame_div f c =
     (if c = 0 \<and> (power f \<noteq> [] \<or> wind_speed f \<noteq> []) then Inl NonFinite
      else Inr \<lparr>power = map (\<lambda>x. x / c) (power f),
                wind_speed = map (\<lambda>x. x / c) (wind_speed f)\<rparr>)"

text \<open>
  The service is a parameter \<open>get\<close>: site identifier, start and end timestamp to a frame
  or a failure.  The loop over the sites of one month (lines 142--155); \<open>row[1]\<close> is
  \<open>siteID\<close> and \<open>row[2]\<close> is \<open>capacity\<close>.
\<close>

fun fetch_sites ::
    "(int \<Rightarrow> timestamp \<Rightarrow> timestamp \<Rightarrow> error + frame) \<Rightarrow> timestamp \<Rightarrow> timestamp \<Rightarrow>
     site_match list \<Rightarrow> (int \<times> frame) list \<Rightarrow> error + (int \<times> frame) list" where
  "fetch_sites get start_t end_t [] d = Inr d"
| "fetch_sites get start_t end_t (row # rows) d =
     (case get (siteID row) start_t end_t of
        Inl e \<Rightarrow> Inl e
      | Inr f \<Rightarrow>
          (case frame_div f (match_capacity row) of
             Inl e \<Rightarrow> Inl e
           | Inr g \<Rightarrow> fetch_sites get start_t end_t rows (dict_set (siteID row) g d)))"

text \<open>The loop over the months of one year (lines 132--155).\<close>

fun fetch_months ::
    "(int \<Rightarrow> timestamp \<Rightarrow> timestamp \<Rightarrow> error + frame) \<Rightarrow> timestamp list \<Rightarrow>
     site_match list \<Rightarrow> int \<Rightarrow> nat list \<Rightarrow> (string \<times> (int \<times> frame) list) list \<Rightarrow>
     error + (string \<times> (int \<times> frame) list) list" where
  "fetch_months get data_range siteIDs y [] d = Inr d"
| "fetch_months get data_range siteIDs y (m # ms) d =
     (let mon = month_label y m;
          rows = filter (\<lambda>t. stamp_label t = mon) data_range
      in case first_value rows of
           Inl e \<Rightarrow> Inl e
         | Inr start_t \<Rightarrow>
             (case fetch_sites get start_t (last rows) (drop_duplicates siteID siteIDs) [] of
                Inl e \<Rightarrow> Inl e
              | Inr sd \<Rightarrow> fetch_months get data_range siteIDs y ms (dict_set mon sd d)))"

text \<open>The loop over the years (line 131) and the function itself.\<close>

fun fetch_years ::
    "(int \<Rightarrow> timestamp \<Rightarrow> timestamp \<Rightarrow> error + frame) \<Rightarrow> timestamp list \<Rightarrow>
     site_match list \<Rightarrow> int list \<Rightarrow> (string \<times> (int \<times> frame) list) list \<Rightarrow>
     error + (string \<times> (int \<times> frame) list) list" where
  "fetch_years get data_range siteIDs [] d = Inr d"
| "fetch_years get data_range siteIDs (y # ys) d =
     (case fetch_months get data_range siteIDs y
             (unique (map month (filter (\<lambda>t. year t = y) data_range))) d of
        Inl e \<Rightarrow> Inl e
      | Inr d' \<Rightarrow> fetch_years get data_range siteIDs ys d')"

definition get_data_from_NREL_server ::
    "(int \<Rightarrow> timestamp \<Rightarrow> timestamp \<Rightarrow> error + frame) \<Rightarrow> site_match list \<Rightarrow>
     timestamp list \<Rightarrow> error + (string \<times> (int \<times> frame) list) list" where
  "get_data_from_NREL_server get siteIDs data_range =
     fetch_years get data_range siteIDs (unique (map year data_range)) []"

section \<open>Wind data reshaper (te\_wind.py, lines 160--190)\<close>

text \<open>
  A table has a timestamp index and labelled columns of cells; \<open>None\<close> is an unset cell
  (\<open>nan\<close>).  \<open>pd.DataFrame(index=..., columns=..., dtype=float)\<close> is all unset.
\<close>

record table =
  t_index :: "timestamp list"
  t_columns :: "(int \<times> real option list) list"

definition new_table :: "timestamp list \<Rightarrow> int list \<Rightarrow> table" where
  "new_table idx cols =
     \<lparr>t_index = idx, t_columns = map (\<lambda>c. (c, replicate (length idx) None)) cols\<rparr>"

definition month_rows :: "timestamp list \<Rightarrow> string \<Rightarrow> nat list" where
  "month_rows idx mon = filter (\<lambda>i. stamp_label (idx ! i) = mon) [0..<length idx]"

fun write_cells :: "real option list \<Rightarrow> nat list \<Rightarrow> real list \<Rightarrow> real option list" where
  "write_cells col (i # rows) (v # vs) = write_cells (col[i := Some v]) rows vs"
| "write_cells col rows vs = col"

text \<open>
  The value array must have one entry per selected row; numpy broadcasts an array of
  one entry, and any other length is a shape mismatch.
\<close>

definition fit_values :: "nat \<Rightarrow> real list \<Rightarrow> error + real list" where
  "fit_values n vs =
     (if length vs = n then Inr vs
      else if length vs = 1 then Inr (replicate n (hd vs))
      else Inl ShapeError)"

text \<open>
  \<open>T.loc[month, siteID] = values\<close>.  A site that is no column yet becomes a new, unset
  column before the cells are written (setting with enlargement).  A month with no
  timestamp in the index is a label the index does not have.
\<close>

definition loc_set :: "table \<Rightarrow> string \<Rightarrow> int \<Rightarrow> real list \<Rightarrow> error + table" where
  "loc_set T mon site vals =
     (let rows = month_rows (t_index T) mon in
      if rows = [] then Inl KeyError
      else case fit_values (length rows) vals of
             Inl e \<Rightarrow> Inl e
           | Inr vs \<Rightarrow>
               (let cols = (if site \<in> fst ` set (t_columns T) then t_columns T
                            else t_columns T @ [(site, replicate (length (t_index T)) None)])
                in Inr (T\<lparr>t_columns :=
                          map (\<lambda>(c, col). if c = site then (c, write_cells col rows vs)
                                           else (c, col)) cols\<rparr>)))"

fun reshape_sites ::
    "string \<Rightarrow> (int \<times> frame) list \<Rightarrow> table \<times> table \<Rightarrow> error + table \<times> table" where
  "reshape_sites mon [] PW = Inr PW"
| "reshape_sites mon ((site, f) # fs) PW =
     (case loc_set (fst PW) mon site (power f) of
        Inl e \<Rightarrow> Inl e
      | Inr P' \<Rightarrow>
          (case loc_set (snd PW) mon site (wind_speed f) of
             Inl e \<Rightarrow> Inl e
           | Inr W' \<Rightarrow> reshape_sites mon fs (P', W')))"

fun reshape_months ::
    "(string \<times> (int \<times> frame) list) list \<Rightarrow> table \<times> table \<Rightarrow> error + table \<times> table" where
  "reshape_months [] PW = Inr PW"
| "reshape_months ((mon, sd) # ms) PW =
     (case reshape_sites mon sd PW of
        Inl e \<Rightarrow> Inl e
      | Inr PW' \<Rightarrow> reshape_months ms PW')"

definition dict_to_DataFrame ::
    "(string \<times> (int \<times> frame) list) list \<Rightarrow> timestamp list \<Rightarrow> site_match list \<Rightarrow>
     error + table \<times> table" where
  "dict_to_DataFrame data data_range closest_NREL_siteID =
     (let cols = unique (map siteID closest_NREL_siteID)
      in reshape_months data (new_table data_range cols, new_table data_range cols))"

section \<open>Wind farm power scaler (te\_wind.py, lines 193--216)\<close>

text \<open>
  A label lookup that must yield one entry (\<open>closest_NREL_siteID.loc[plantID, 'siteID']\<close>,
  \<open>NREL_power[siteID]\<close>): no entry is a \<open>KeyError\<close>; several entries give pandas a
  series or frame where the code needs a scalar or a column, which the column assignment
  of line 213 rejects.
\<close>

definition loc_unique :: "('k \<times> 'v) list \<Rightarrow> 'k \<Rightarrow> error + 'v" where
  "loc_unique d k =
     (case filter (\<lambda>(k', v). k' = k) d of
        [] \<Rightarrow> Inl KeyError
      | [(k', v)] \<Rightarrow> Inr v
      | _ \<Rightarrow> Inl ShapeError)"

text \<open>
  Lines 212--213 read, for one plant, the site it is matched to and that site's column
  of the power table.
\<close>

definition matched_column :: "table \<Rightarrow> site_match list \<Rightarrow> int \<Rightarrow> error + real option list" where
  "matched_column NREL_power closest pid =
     (case loc_unique (map (\<lambda>m. (match_plantID m, siteID m)) closest) pid of
        Inl e \<Rightarrow> Inl e
      | Inr sid \<Rightarrow> loc_unique (t_columns NREL_power) sid)"

text \<open>\<open>frame[label] = column\<close> on an existing label sets every column with that label.\<close>

definition set_column ::
    "int \<Rightarrow> real option list \<Rightarrow> (int \<times> real option list) list \<Rightarrow> (int \<times> real option list) list" where
  "set_column k col cols = map (\<lambda>(k', c). if k' = k then (k', col) else (k', c)) cols"

text \<open>
  The loop of lines 211--213 over \<open>wind_farm_bus['GenMWMax'].iteritems()\<close>: pairs of
  \<open>plantID\<close> and \<open>GenMWMax\<close>.  An unset cell times a number is unset.
\<close>

fun scale_loop ::
    "table \<Rightarrow> site_match list \<Rightarrow> (int \<times> real) list \<Rightarrow> (int \<times> real option list) list \<Rightarrow>
     error + (int \<times> real option list) list" where
  "scale_loop NREL_power closest [] cols = Inr cols"
| "scale_loop NREL_power closest ((pid, GenMWMax) # bus) cols =
     (case matched_column NREL_power closest pid of
        Inl e \<Rightarrow> Inl e
      | Inr col \<Rightarrow>
          scale_loop NREL_power closest bus
            (set_column pid (map (map_option (\<lambda>v. v * GenMWMax)) col) cols))"

text \<open>
  \<open>resample('H').mean()\<close>: one bin per hour from the earliest to the latest hour of the
  index; the value of a bin is the arithmetic mean of the set cells whose timestamp falls
  in that hour, and unset when there is none.  The hourly table is indexed by hour.
\<close>

record hourly_table =
  h_index :: "nat list"
  h_columns :: "(int \<times> real option list) list"

definition hour_bins :: "timestamp list \<Rightarrow> nat list" where
  "hour_bins idx =
     (case map hour_of idx of
        [] \<Rightarrow> []
      | h # hs \<Rightarrow> [fold min hs h ..< Suc (fold max hs h)])"

definition bin_values :: "timestamp list \<Rightarrow> real option list \<Rightarrow> nat \<Rightarrow> real list" where
  "bin_values idx col h =
     List.map_filter (\<lambda>(t, c). if hour_of t = h then c else None) (zip idx col)"

definition mean :: "real list \<Rightarrow> real option" where
  "mean vs = (if vs = [] then None else Some (sum_list vs / real (length vs)))"

definition resample_mean :: "timestamp list \<Rightarrow> real option list \<Rightarrow> real option list" where
  "resample_mean idx col = map (\<lambda>h. mean (bin_values idx col h)) (hour_bins idx)"

definition scale_power_to_plant_capacity ::
    "table \<Rightarrow> (int \<times> real) list \<Rightarrow> site_match list \<Rightarrow> error + hourly_table" where
  "scale_power_to_plant_capacity NREL_power wind_farm_bus closest_NREL_siteID =
     (case scale_loop NREL_power closest_NREL_siteID wind_farm_bus
             (map (\<lambda>(pid, g). (pid, replicate (length (t_index NREL_power)) None))
                wind_farm_bus) of
        Inl e \<Rightarrow> Inl e
      | Inr cols \<Rightarrow>
          Inr \<lparr>h_index = hour_bins (t_index NREL_power),
               h_columns = map (\<lambda>(pid, col). (pid, resample_mean (t_index NREL_power) col))
                             cols\<rparr>)"

section \<open>Naive solar estimator and output writer (naive.py, lines 91--117)\<close>

text \<open>
  A cell of a float column.  The arithmetic on finite values is exact; a numpy division
  by zero does not raise but yields \<open>inf\<close>, \<open>-inf\<close> or \<open>nan\<close>, which the later
  products carry along.  \<open>fdiv\<close> is the quotient of two finite numbers and \<open>fmul\<close> the
  product of a cell and a finite number.
\<close>

datatype fval = Fin real | PosInf | NegInf | NaN

definition fdiv :: "real \<Rightarrow> real \<Rightarrow> fval" where
  "fdiv x m =
     (if m \<noteq> 0 then Fin (x / m)
      else if 0 < x then PosInf else if x < 0 then NegInf else NaN)"

fun fmul :: "fval \<Rightarrow> real \<Rightarrow> fval" where
  "fmul (Fin x) c = Fin (x * c)"
| "fmul PosInf c = (if 0 < c then PosInf else if c < 0 then NegInf else NaN)"
| "fmul NegInf c = (if 0 < c then NegInf else if c < 0 then PosInf else NaN)"
| "fmul NaN c = NaN"

text \<open>\<open>data_loc.max()\<close>: the greatest entry; \<open>None\<close> is the \<open>nan\<close> of an empty series.\<close>

fun series_max :: "real list \<Rightarrow> real option" where
  "series_max [] = None"
| "series_max (x # xs) = Some (fold max xs x)"

text \<open>
  Line 103, \<open>data_loc = data_loc / data_loc.max()\<close>.  An empty series stays empty.  A
  series whose maximum is zero is divided by zero: nothing is raised, and the column
  holds \<open>nan\<close> and \<open>-inf\<close>.
\<close>

definition normalize :: "real list \<Rightarrow> fval list" where
  "normalize ghi =
     (case series_max ghi of
        None \<Rightarrow> []
      | Some m \<Rightarrow> map (\<lambda>x. fdiv x m) ghi)"

text \<open>A row of the accumulated frame \<open>data\<close>: the index and the columns \<open>Pout\<close>, \<open>id\<close>.\<close>

record out_row =
  row_index :: nat
  Pout :: fval
  plant_id :: int

text \<open>
  Line 107.  In \<open>data_site['Pout']*[i[1]]*len(data_loc)\<close> the products associate to the
  left: the column times the one-element list \<open>[i[1]]\<close> (broadcast to every row), times
  the number of rows.
\<close>

definition scale_column :: "fval list \<Rightarrow> real \<Rightarrow> fval list" where
  "scale_column pout pmax = map (\<lambda>v. fmul (fmul v pmax) (real (length pout))) pout"

text \<open>
  The rows one plant contributes: the frame has the index \<open>range(1, len(ghi)+1)\<close> of
  line 102, the scaled column as \<open>Pout\<close> and the plant's identifier in every row as
  \<open>id\<close> (line 108).
\<close>

definition series_rows :: "int \<Rightarrow> fval list \<Rightarrow> out_row list" where
  "series_rows pid pout =
     map (\<lambda>(k, v). \<lparr>row_index = k, Pout = v, plant_id = pid\<rparr>)
       (zip [1..<Suc (length pout)] pout)"

text \<open>
  The loop over the plants of one location (lines 105--112).  \<open>data_site = data_loc\<close>
  binds a second name to the same frame, so the assignment to \<open>data_site['Pout']\<close>
  changes \<open>data_loc\<close> as well: the column \<open>pout\<close> is threaded through the loop.
  \<open>concat\<close> and \<open>append\<close> copy the rows to the end of \<open>data\<close>.
\<close>

fun plant_loop ::
    "fval list \<Rightarrow> out_row list \<Rightarrow> (int \<times> real) list \<Rightarrow> fval list \<times> out_row list" where
  "plant_loop pout data [] = (pout, data)"
| "plant_loop pout data (i # plants) =
     (let pout' = scale_column pout (snd i)
      in plant_loop pout' (data @ series_rows (fst i) pout') plants)"

text \<open>
  The loop over the location keys (lines 97--112).  \<open>read_ghi\<close> is the download of the
  \<open>GHI\<close> column for a key; \<open>coord[key]\<close> raises \<open>KeyError\<close> for a key without plants.
\<close>

fun location_loop ::
    "('key \<Rightarrow> real list) \<Rightarrow> ('key \<times> (int \<times> real) list) list \<Rightarrow> out_row list \<Rightarrow>
     'key list \<Rightarrow> error + out_row list" where
  "location_loop read_ghi coord data [] = Inr data"
| "location_loop read_ghi coord data (key # keys) =
     (case map_of coord key of
        None \<Rightarrow> Inl KeyError
      | Some plants \<Rightarrow>
          location_loop read_ghi coord
            (snd (plant_loop (normalize (read_ghi key)) data plants)) keys)"

text \<open>
  Line 113, \<open>data.sort_index(inplace=True)\<close>.  The sort orders the rows by their index;
  the order pandas gives to rows of equal index is not fixed by its default algorithm.
  The sort is therefore a parameter \<open>sorter\<close> of the model, and \<open>sorts_by_index\<close> is all
  that is known of it: the result holds the same rows, in non-decreasing index order.
  On a table of at most 16 rows the default algorithm is an insertion sort, which keeps
  rows of equal index in their order of arrival, as \<open>sort_key row_index\<close> does.
\<close>

definition sorts_by_index :: "(out_row list \<Rightarrow> out_row list) \<Rightarrow> bool" where
  "sorts_by_index sorter \<longleftrightarrow>
     (\<forall>data. mset (sorter data) = mset data \<and> sorted (map row_index (sorter data)))"

text \<open>
  Lines 116--117.  The written file is its name, its separator, whether it has a header
  row, and its lines as lists of cells; how pandas renders a number as text is not
  modelled.  \<open>index=True\<close> writes the index as the first cell of every line, before the
  columns \<open>['id', 'Pout']\<close>.
\<close>

datatype cell = IndexCell nat | IdCell int | PoutCell fval

record csv_file =
  file_name :: string
  sep :: char
  header :: bool
  file_lines :: "cell list list"

definition csv_line :: "out_row \<Rightarrow> cell list" where
  "csv_line r = [IndexCell (row_index r), IdCell (plant_id r), PoutCell (Pout r)]"

definition to_csv :: "string \<Rightarrow> out_row list \<Rightarrow> csv_file" where
  "to_csv name data =
     \<lparr>file_name = name, sep = CHR 0x09, header = False, file_lines = map csv_line data\<rparr>"

definition output_name :: "int \<Rightarrow> string" where
  "output_name y = ''western_Pout_'' @ str_int y @ ''.txt''"

definition naive_solar ::
    "(out_row list \<Rightarrow> out_row list) \<Rightarrow> ('key \<Rightarrow> real list) \<Rightarrow>
     ('key \<times> (int \<times> real) list) list \<Rightarrow> 'key list \<Rightarrow> int \<Rightarrow> error + csv_file" where
  "naive_solar sorter read_ghi coord keys y =
     (case location_loop read_ghi coord [] keys of
        Inl e \<Rightarrow> Inl e
      | Inr data \<Rightarrow> Inr (to_csv (output_name y) (sorter data)))"

text \<open>
  For stating what the file holds: the plants of a location in the order the loop reaches
  them, each with the column the loop gives it, and the same for a list of location keys.
\<close>

fun plant_columns :: "fval list \<Rightarrow> (int \<times> real) list \<Rightarrow> (int \<times> fval list) list" where
  "plant_columns pout [] = []"
| "plant_columns pout (i # plants) =
     (fst i, scale_column pout (snd i)) # plant_columns (scale_column pout (snd i)) plants"

definition all_plant_columns ::
    "('key \<Rightarrow> real list) \<Rightarrow> ('key \<times> (int \<times> real) list) list \<Rightarrow> 'key list \<Rightarrow>
     (int \<times> fval list) list" where
  "all_plant_columns read_ghi coord keys =
     concat (map (\<lambda>key. case map_of coord key of
                            None \<Rightarrow> []
                          | Some plants \<Rightarrow> plant_columns (normalize (read_ghi key)) plants)
               keys)"


section \<open>A catalog of three sites\<close>




section \<open>Properties of the great-circle distance\<close>

text \<open>
  The argument of the square root is a convex combination of two squares, a sine and a
  cosine, weighted by the haversine of the longitude difference.  It therefore lies in
  \<open>[0, 1]\<close> for all real arguments, and neither \<open>sqrt\<close> nor \<open>asin\<close> can fail.
\<close>

lemma cos_prod: "cos (A - B) * cos (A + B) = (cos A)\<^sup>2 - (sin B)\<^sup>2" for A B :: real
proof -
  have sA: "(sin A)\<^sup>2 = 1 - (cos A)\<^sup>2" by (simp add: sin_squared_eq)
  have cB: "(cos B)\<^sup>2 = 1 - (sin B)\<^sup>2" by (simp add: cos_squared_eq)
  have "cos (A - B) * cos (A + B) = (cos A)\<^sup>2 * (cos B)\<^sup>2 - (sin A)\<^sup>2 * (sin B)\<^sup>2"
    by (simp add: cos_add cos_diff power2_eq_square algebra_simps)
  also have "\<dots> = (cos A)\<^sup>2 - (sin B)\<^sup>2"
    unfolding sA cB by (simp add: algebra_simps)
  finally show ?thesis .
qed

lemma hav_arg_convex:
  "hav_arg lat1 lon1 lat2 lon2 =
     (1 - haversin (lon2 - lon1)) * (sin ((lat2 - lat1) / 2))\<^sup>2
     + haversin (lon2 - lon1) * (cos ((lat1 + lat2) / 2))\<^sup>2"
proof -
  have "cos lat1 * cos lat2 = cos ((lat1 + lat2) / 2 - (lat2 - lat1) / 2) * cos ((lat1 + lat2) / 2 + (lat2 - lat1) / 2)"
    by (simp add: field_simps)
  also have "\<dots> = (cos ((lat1 + lat2) / 2))\<^sup>2 - (sin ((lat2 - lat1) / 2))\<^sup>2"
    by (rule cos_prod)
  finally have cc: "cos lat1 * cos lat2 = (cos ((lat1 + lat2) / 2))\<^sup>2 - (sin ((lat2 - lat1) / 2))\<^sup>2" .
  show ?thesis
    unfolding hav_arg_def cc by (simp add: haversin_def algebra_simps)
qed

lemma haversin_range: "0 \<le> haversin x" "haversin x \<le> 1"
  unfolding haversin_def
  by (simp_all add: abs_square_le_1 abs_sin_le_one)

lemma hav_arg_range: "0 \<le> hav_arg lat1 lon1 lat2 lon2" "hav_arg lat1 lon1 lat2 lon2 \<le> 1"
proof -
  let ?s = "haversin (lon2 - lon1)"
  let ?p = "(sin ((lat2 - lat1) / 2))\<^sup>2"
  let ?q = "(cos ((lat1 + lat2) / 2))\<^sup>2"
  have s: "0 \<le> ?s" "?s \<le> 1" by (rule haversin_range)+
  have p: "0 \<le> ?p" "?p \<le> 1" by (simp_all add: abs_square_le_1 abs_sin_le_one)
  have q: "0 \<le> ?q" "?q \<le> 1" by (simp_all add: abs_square_le_1 abs_cos_le_one)
  have e: "hav_arg lat1 lon1 lat2 lon2 = (1 - ?s) * ?p + ?s * ?q" by (rule hav_arg_convex)
  show "0 \<le> hav_arg lat1 lon1 lat2 lon2"
    unfolding e using s p q by (intro add_nonneg_nonneg mult_nonneg_nonneg) simp_all
  have "(1 - ?s) * ?p \<le> (1 - ?s) * 1" using s p by (intro mult_left_mono) simp_all
  moreover have "?s * ?q \<le> ?s * 1" using s q by (intro mult_left_mono) simp_all
  ultimately show "hav_arg lat1 lon1 lat2 lon2 \<le> 1" unfolding e by simp
qed

lemma poly_lower: "(\<Sum>m<12. cos_coeff m * (102943/65536 :: real) ^ m) + (-1 / fact 12) * (102943/65536) ^ 12 > 0"
  by (simp add: cos_coeff_def lessThan_nat_numeral fact_numeral power_divide)

lemma poly_upper: "(\<Sum>m<12. cos_coeff m * (3217/2048 :: real) ^ m) + (1 / fact 12) * (3217/2048) ^ 12 < 0"
  by (simp add: cos_coeff_def lessThan_nat_numeral fact_numeral power_divide)

lemma cos_maclaurin_12:
  fixes x :: real
  assumes "0 < x"
  shows "(\<Sum>m<12. cos_coeff m * x ^ m) - x ^ 12 / fact 12 \<le> cos x"
    and "cos x \<le> (\<Sum>m<12. cos_coeff m * x ^ m) + x ^ 12 / fact 12"
proof -
  obtain t where t: "cos x = (\<Sum>m<12. cos_coeff m * x ^ m) + (cos (t + 1/2 * real (12::nat) * pi) / fact 12) * x ^ 12"
    using Maclaurin_cos_expansion2[of x 12] assms by auto
  let ?c = "cos (t + 1/2 * real (12::nat) * pi)"
  have c: "-1 \<le> ?c" "?c \<le> 1" by simp_all
  have x12: "0 \<le> x ^ 12 / fact 12" using assms by simp
  have r: "(?c / fact 12) * x ^ 12 = ?c * (x ^ 12 / fact 12)" by simp
  have "-1 * (x ^ 12 / fact 12) \<le> ?c * (x ^ 12 / fact 12)"
    using c(1) x12 by (rule mult_right_mono)
  then show "(\<Sum>m<12. cos_coeff m * x ^ m) - x ^ 12 / fact 12 \<le> cos x"
    unfolding t r by simp
  have "?c * (x ^ 12 / fact 12) \<le> 1 * (x ^ 12 / fact 12)"
    using c(2) x12 by (rule mult_right_mono)
  then show "cos x \<le> (\<Sum>m<12. cos_coeff m * x ^ m) + x ^ 12 / fact 12"
    unfolding t r by simp
qed

lemma cos_pos_below: "0 < cos (102943/65536 :: real)"
  using cos_maclaurin_12(1)[of "102943/65536"] poly_lower by simp

lemma cos_neg_above: "cos (3217/2048 :: real) < 0"
  using cos_maclaurin_12(2)[of "3217/2048"] poly_upper by simp

lemma pi_half_lower: "102943/65536 < pi / 2"
proof (rule ccontr)
  assume "\<not> 102943/65536 < pi / 2"
  then have "pi / 2 \<le> 102943/65536" by simp
  moreover have "(102943/65536 :: real) \<le> pi" using pi_ge_two by simp
  moreover have "0 \<le> pi / 2" by simp
  ultimately have "cos (102943/65536) \<le> cos (pi / 2)"
    by (intro cos_monotone_0_pi_le) 
  then show False using cos_pos_below by simp
qed

lemma pi_half_upper: "pi / 2 < 3217/2048"
proof (rule ccontr)
  assume "\<not> pi / 2 < 3217/2048"
  then have "3217/2048 \<le> pi / 2" by simp
  moreover have "pi / 2 \<le> pi" by simp
  moreover have "(0::real) \<le> 3217/2048" by simp
  ultimately have "cos (pi / 2) \<le> cos (3217/2048)"
    by (intro cos_monotone_0_pi_le) 
  then show False using cos_neg_above by simp
qed


lemma haversin_swap: "haversin (a - b) = haversin (b - a)"
proof -
  have "(a - b) / 2 = - ((b - a) / 2)" by (simp add: field_simps)
  then have "sin ((a - b) / 2) = - sin ((b - a) / 2)" by (simp only: sin_minus)
  then show ?thesis by (simp add: haversin_def)
qed

lemma hav_arg_sym: "hav_arg lat1 lon1 lat2 lon2 = hav_arg lat2 lon2 lat1 lon1"
  unfolding hav_arg_def
  using haversin_swap[of lat2 lat1] haversin_swap[of lon2 lon1] by (simp add: mult.commute)

lemma sqrt_hav_arg_le_1: "sqrt (hav_arg lat1 lon1 lat2 lon2) \<le> 1"
  using hav_arg_range(2)[of lat1 lon1 lat2 lon2] by simp

lemma greatCircleDistance_total:
  "greatCircleDistance lat1 lon1 lat2 lon2 = Inr (R * 2 * arcsin (sqrt (hav_arg lat1 lon1 lat2 lon2)))"
  using hav_arg_range(1)[of lat1 lon1 lat2 lon2] sqrt_hav_arg_le_1[of lat1 lon1 lat2 lon2]
  by (simp add: greatCircleDistance_def Let_def)

lemma hav_arg_same: "hav_arg la lo la lo = 0"
  by (simp add: hav_arg_def haversin_def)

lemma hav_arg_quarter: "hav_arg 0 0 0 (pi / 2) = (sin (pi / 4))\<^sup>2"
  by (simp add: hav_arg_def haversin_def)

lemma arcsin_quarter: "arcsin (sqrt ((sin (pi / 4))\<^sup>2)) = pi / 4"
proof -
  have "0 \<le> sin (pi / 4)" by (simp add: sin_45)
  then have "sqrt ((sin (pi / 4))\<^sup>2) = sin (pi / 4)" by simp
  moreover have "arcsin (sin (pi / 4)) = pi / 4" by (rule arcsin_sin) simp_all
  ultimately show ?thesis by simp
qed

lemma quarter_circle: "greatCircleDistance 0 0 0 (pi / 2) = Inr (R * pi / 2)"
proof -
  have "greatCircleDistance 0 0 0 (pi / 2) = Inr (R * 2 * (pi / 4))"
    by (simp only: greatCircleDistance_total hav_arg_quarter arcsin_quarter)
  then show ?thesis by simp
qed

lemma quarter_circle_bounds: "10002.7 < R * pi / 2" "R * pi / 2 < 10002.9"
proof -
  have "10002.7 < 6368 * (102943/65536 :: real)" by simp
  also have "\<dots> < 6368 * (pi / 2)" using pi_half_lower by simp
  finally show "10002.7 < R * pi / 2" by (simp add: R_def)
  have "6368 * (pi / 2) < 6368 * (3217/2048 :: real)" using pi_half_upper by simp
  also have "\<dots> < 10002.9" by simp
  finally show "R * pi / 2 < 10002.9" by (simp add: R_def)
qed

text \<open>
  Claim C4, with its figure amended.  For all real arguments the function returns
  \<open>2 R asin (sqrt (sin\<^sup>2 ((lat2 - lat1) / 2) + cos lat1 cos lat2 sin\<^sup>2 ((lon2 - lon1) / 2)))\<close>
  with \<open>R = 6368\<close>; the distance from a point to itself is 0; the function is
  symmetric in its two points; and the distance between \<open>(0, 0)\<close> and \<open>(0, \<pi>/2)\<close>
  is \<open>R \<pi> / 2\<close>, which is 10002.8 km to within 0.1 km.
\<close>

theorem greatCircleDistance_haversine:
  "greatCircleDistance lat1 lon1 lat2 lon2 =
     Inr (2 * R * arcsin (sqrt ((sin ((lat2 - lat1) / 2))\<^sup>2
            + cos lat1 * cos lat2 * (sin ((lon2 - lon1) / 2))\<^sup>2)))
   \<and> R = 6368
   \<and> greatCircleDistance lat1 lon1 lat1 lon1 = Inr 0
   \<and> greatCircleDistance lat1 lon1 lat2 lon2 = greatCircleDistance lat2 lon2 lat1 lon1
   \<and> greatCircleDistance 0 0 0 (pi / 2) = Inr (R * pi / 2)
   \<and> \<bar>R * pi / 2 - 10002.8\<bar> \<le> 0.1"
proof (intro conjI)
  show "greatCircleDistance lat1 lon1 lat2 lon2 =
     Inr (2 * R * arcsin (sqrt ((sin ((lat2 - lat1) / 2))\<^sup>2
            + cos lat1 * cos lat2 * (sin ((lon2 - lon1) / 2))\<^sup>2)))"
    by (simp add: greatCircleDistance_total hav_arg_def haversin_def)
  show "R = 6368" by (rule R_def)
  show "greatCircleDistance lat1 lon1 lat1 lon1 = Inr 0"
    by (simp add: greatCircleDistance_total hav_arg_same)
  show "greatCircleDistance lat1 lon1 lat2 lon2 = greatCircleDistance lat2 lon2 lat1 lon1"
    by (simp add: greatCircleDistance_total hav_arg_sym[of lat1 lon1 lat2 lon2])
  show "greatCircleDistance 0 0 0 (pi / 2) = Inr (R * pi / 2)" by (rule quarter_circle)
  show "\<bar>R * pi / 2 - 10002.8\<bar> \<le> 0.1"
    using quarter_circle_bounds by (intro abs_leI) linarith+
qed

text \<open>
  Claim C4 as stated puts \<open>R \<pi> / 2\<close> within 0.1 km of 10002.5 km.  The product
  \<open>6368 \<times> 1.5708\<close> is 10002.85, not 10002.5: the distance the function returns for
  \<open>(0, 0)\<close> and \<open>(0, \<pi>/2)\<close> exceeds 10002.7 km.
\<close>

theorem quarter_circle_not_10002_5:
  "\<not> (\<exists>d. greatCircleDistance 0 0 0 (pi / 2) = Inr d \<and> \<bar>d - 10002.5\<bar> \<le> 0.1)"
proof
  assume "\<exists>d. greatCircleDistance 0 0 0 (pi / 2) = Inr d \<and> \<bar>d - 10002.5\<bar> \<le> 0.1"
  then obtain d where d: "greatCircleDistance 0 0 0 (pi / 2) = Inr d" "\<bar>d - 10002.5\<bar> \<le> 0.1"
    by blast
  from d(1) have "d = R * pi / 2" unfolding quarter_circle by (simp only: sum.inject)
  with d(2) have "\<bar>R * pi / 2 - 10002.5\<bar> \<le> 0.1" by (simp only:)
  then have "R * pi / 2 \<le> 10002.6" by linarith
  with quarter_circle_bounds(1) show False by linarith
qed

section \<open>Properties of the site matcher\<close>























section \<open>Properties of the naive solar estimator\<close>

lemma series_max_Max:
  assumes "xs \<noteq> []"
  shows "series_max xs = Some (Max (set xs))"
proof (cases xs)
  case Nil
  with assms show ?thesis by simp
next
  case (Cons x xs')
  have "fold max xs' x = Max (set (x # xs'))" by (rule Max.set_eq_fold[symmetric])
  then show ?thesis unfolding Cons by (simp only: series_max.simps)
qed

text \<open>
  Claim C5, amended.  For every GHI series without a negative value that is not entirely
  zero, the maximum is positive, the normalized series is every value divided by that
  maximum, every normalized value lies in \<open>[0, 1]\<close>, and a position holding the
  maximum is normalized to exactly 1.
\<close>

theorem normalize_bounds:
  assumes nonneg: "\<forall>x\<in>set ghi. 0 \<le> x" and nonzero: "\<exists>x\<in>set ghi. x \<noteq> 0"
  shows "\<exists>out m. normalize ghi = map Fin out \<and> series_max ghi = Some m \<and> 0 < m
           \<and> length out = length ghi
           \<and> (\<forall>k<length ghi. out ! k = ghi ! k / m \<and> 0 \<le> out ! k \<and> out ! k \<le> 1)
           \<and> (\<exists>k<length ghi. ghi ! k = m \<and> out ! k = 1)"
proof -
  let ?m = "Max (set ghi)"
  from nonzero have ne: "ghi \<noteq> []" by auto
  have m: "series_max ghi = Some ?m" by (rule series_max_Max[OF ne])
  from nonzero obtain x where x: "x \<in> set ghi" "x \<noteq> 0" by blast
  with nonneg have "0 < x" by force
  moreover have "x \<le> ?m" using x(1) by (intro Max_ge) simp_all
  ultimately have pos: "0 < ?m" by linarith
  have n: "normalize ghi = map Fin (map (\<lambda>x. x / ?m) ghi)"
    using pos by (simp add: normalize_def m fdiv_def)
  have cell: "\<forall>k<length ghi. map (\<lambda>x. x / ?m) ghi ! k = ghi ! k / ?m
                \<and> 0 \<le> map (\<lambda>x. x / ?m) ghi ! k \<and> map (\<lambda>x. x / ?m) ghi ! k \<le> 1"
  proof (intro allI impI)
    fix k assume k: "k < length ghi"
    then have mem: "ghi ! k \<in> set ghi" by simp
    then have "ghi ! k \<le> ?m" by (intro Max_ge) simp_all
    moreover from nonneg mem have "0 \<le> ghi ! k" by blast
    ultimately show "map (\<lambda>x. x / ?m) ghi ! k = ghi ! k / ?m
                \<and> 0 \<le> map (\<lambda>x. x / ?m) ghi ! k \<and> map (\<lambda>x. x / ?m) ghi ! k \<le> 1"
      using pos k by simp
  qed
  have "?m \<in> set ghi" using ne by (intro Max_in) simp_all
  then obtain k where k: "k < length ghi" "ghi ! k = ?m" by (auto simp: in_set_conv_nth)
  then have "map (\<lambda>x. x / ?m) ghi ! k = 1" using pos by simp
  with k have "\<exists>k<length ghi. ghi ! k = ?m \<and> map (\<lambda>x. x / ?m) ghi ! k = 1" by blast
  with n m pos cell show ?thesis
    by (intro exI[of _ "map (\<lambda>x. x / ?m) ghi"] exI[of _ ?m]) simp
qed

text \<open>The series \<open>[0, 50, 100]\<close> is normalized to \<open>[0, 1/2, 1]\<close>.\<close>

theorem normalize_bounds_witness:
  "normalize [0, 50, 100] = [Fin 0, Fin (1 / 2), Fin 1] \<and> series_max [0, 50, 100] = Some 100"
  using normalize_bounds[of "[0, 50, 100]"] by (simp add: normalize_def fdiv_def)

text \<open>
  Claim C5 as stated covers every series that is not entirely zero.  The code does not
  check the sign of its input: the series \<open>[-1, 1]\<close> is normalized to itself, and
  \<open>-1\<close> is outside \<open>[0, 1]\<close>.
\<close>

theorem normalize_negative_entry:
  "normalize [- 1, 1] = [Fin (- 1), Fin 1] \<and> (- 1 :: real) \<notin> {0..1}"
  by (simp add: normalize_def fdiv_def)

text \<open>
  Claim C1 on the code.  Two plants, 1 and 2, share one location with capacities 10 and 20,
  and the GHI series is \<open>[0, 50, 100]\<close>.  The normalized series is \<open>[0, 1/2, 1]\<close>, the
  accumulated table has six rows, and the file has six lines paired by plant identifier
  and time index, but the power values are not the normalized series times the capacity:
  plant 1 gets \<open>[0, 15, 30]\<close> (capacity times the number of rows, 3) and plant 2 gets
  \<open>[0, 900, 1800]\<close> (computed from the column plant 1 left behind, times 20, times 3).
\<close>

theorem solar_scenario_as_coded:
  "normalize [0, 50, 100] = [Fin 0, Fin (1 / 2), Fin 1]
   \<and> location_loop (\<lambda>key. [0, 50, 100])
        [((''-122.4056'', ''45.584722''), [(1, 10), (2, 20)])] []
        [(''-122.4056'', ''45.584722'')]
     = Inr [\<lparr>row_index = 1, Pout = Fin 0, plant_id = 1\<rparr>,
            \<lparr>row_index = 2, Pout = Fin 15, plant_id = 1\<rparr>,
            \<lparr>row_index = 3, Pout = Fin 30, plant_id = 1\<rparr>,
            \<lparr>row_index = 1, Pout = Fin 0, plant_id = 2\<rparr>,
            \<lparr>row_index = 2, Pout = Fin 900, plant_id = 2\<rparr>,
            \<lparr>row_index = 3, Pout = Fin 1800, plant_id = 2\<rparr>]
   \<and> naive_solar (sort_key row_index) (\<lambda>key. [0, 50, 100])
        [((''-122.4056'', ''45.584722''), [(1, 10), (2, 20)])]
        [(''-122.4056'', ''45.584722'')] 2016
     = Inr \<lparr>file_name = ''western_Pout_2016.txt'', sep = CHR 0x09, header = False,
            file_lines =
              [[IndexCell 1, IdCell 1, PoutCell (Fin 0)],
               [IndexCell 1, IdCell 2, PoutCell (Fin 0)],
               [IndexCell 2, IdCell 1, PoutCell (Fin 15)],
               [IndexCell 2, IdCell 2, PoutCell (Fin 900)],
               [IndexCell 3, IdCell 1, PoutCell (Fin 30)],
               [IndexCell 3, IdCell 2, PoutCell (Fin 1800)]]\<rparr>"
  by code_simp

section \<open>Properties of the solar output writer\<close>

lemma length_scale_column: "length (scale_column pout c) = length pout"
  by (simp add: scale_column_def)

lemma length_normalize: "length (normalize ghi) = length ghi"
  by (cases ghi) (simp_all add: normalize_def)

lemma series_rows_fields:
  "map row_index (series_rows pid col) = [1..<Suc (length col)]"
  "map plant_id (series_rows pid col) = replicate (length col) pid"
  "map Pout (series_rows pid col) = col"
proof -
  let ?ks = "[1..<Suc (length col)]"
  have len: "length ?ks = length col" by (simp del: upt_Suc)
  have "map row_index (series_rows pid col) = map fst (zip ?ks col)"
    by (simp add: series_rows_def split_def comp_def)
  also have "\<dots> = ?ks" using len by (rule map_fst_zip)
  finally show "map row_index (series_rows pid col) = ?ks" .
  have "map Pout (series_rows pid col) = map snd (zip ?ks col)"
    by (simp add: series_rows_def split_def comp_def)
  also have "\<dots> = col" using len by (rule map_snd_zip)
  finally show "map Pout (series_rows pid col) = col" .
  have "map plant_id (series_rows pid col) = map (\<lambda>x. pid) (zip ?ks col)"
    by (simp add: series_rows_def split_def comp_def)
  also have "\<dots> = replicate (length (zip ?ks col)) pid" by (rule map_replicate_const)
  also have "length (zip ?ks col) = length col" using len by simp
  finally show "map plant_id (series_rows pid col) = replicate (length col) pid" .
qed

lemma plant_columns_ids: "map fst (plant_columns pout plants) = map fst plants"
  by (induction plants arbitrary: pout) simp_all

lemma plant_columns_lengths:
  "\<forall>c\<in>set (plant_columns pout plants). length (snd c) = length pout"
  by (induction plants arbitrary: pout) (simp_all add: length_scale_column)

lemma plant_loop_rows:
  "snd (plant_loop pout data plants)
     = data @ concat (map (\<lambda>(pid, col). series_rows pid col) (plant_columns pout plants))"
  by (induction plants arbitrary: pout data) (simp_all add: Let_def)

lemma location_loop_rows:
  assumes "\<forall>key\<in>set keys. key \<in> fst ` set coord"
  shows "location_loop read_ghi coord data keys
           = Inr (data @ concat (map (\<lambda>(pid, col). series_rows pid col)
                                  (all_plant_columns read_ghi coord keys)))"
  using assms
proof (induction keys arbitrary: data)
  case Nil
  then show ?case by (simp add: all_plant_columns_def)
next
  case (Cons key keys)
  from Cons.prems have "key \<in> fst ` set coord" by simp
  then obtain plants where p: "map_of coord key = Some plants"
    by (metis map_of_eq_None_iff not_Some_eq)
  from Cons.prems have rest: "\<forall>key\<in>set keys. key \<in> fst ` set coord" by simp
  show ?case
    using Cons.IH[OF rest] by (simp add: p plant_loop_rows all_plant_columns_def)
qed

lemma all_plant_columns_ids:
  "map fst (all_plant_columns read_ghi coord keys)
     = concat (map (\<lambda>key. case map_of coord key of
                             None \<Rightarrow> []
                           | Some plants \<Rightarrow> map fst plants) keys)"
  by (induction keys)
     (auto simp: all_plant_columns_def plant_columns_ids split: option.splits)

lemma sorts_by_index_sort_key: "sorts_by_index (sort_key row_index)"
  by (simp add: sorts_by_index_def)

text \<open>
  Claim C9, amended.  Whatever the plants, their series and the order they are processed
  in, and however the sort orders rows of equal index: when every location key has its
  plants in \<open>coord\<close>, the writer produces the file \<open>western_Pout_<year>.txt\<close>,
  tab-separated and without a header row.  Its lines are exactly the rows of all plants
  of all locations, none lost and none added, in non-decreasing order of the time index.
  Every plant, in the order of the locations and of the plants within a location,
  contributes its column: one row per entry of the column, with the time indices
  \<open>1, 2, ..., n\<close>, the plant's identifier in every row, and the entries of the column
  as estimated power.  Every line holds, in this order, the time index, the plant
  identifier and the estimated power.
\<close>

theorem solar_output_written:
  assumes "sorts_by_index sorter" and "\<forall>key\<in>set keys. key \<in> fst ` set coord"
  shows "\<exists>rows. naive_solar sorter read_ghi coord keys y =
                  Inr \<lparr>file_name = ''western_Pout_'' @ str_int y @ ''.txt'',
                       sep = CHR 0x09, header = False, file_lines = map csv_line rows\<rparr>
           \<and> sorted (map row_index rows)
           \<and> mset rows = mset (concat (map (\<lambda>(pid, col). series_rows pid col)
                                         (all_plant_columns read_ghi coord keys)))
           \<and> map fst (all_plant_columns read_ghi coord keys)
               = concat (map (\<lambda>key. case map_of coord key of
                                       None \<Rightarrow> []
                                     | Some plants \<Rightarrow> map fst plants) keys)
           \<and> (\<forall>pid col. map row_index (series_rows pid col) = [1..<Suc (length col)]
                  \<and> map plant_id (series_rows pid col) = replicate (length col) pid
                  \<and> map Pout (series_rows pid col) = col)
           \<and> (\<forall>r. csv_line r = [IndexCell (row_index r), IdCell (plant_id r), PoutCell (Pout r)])"
proof -
  let ?acc = "concat (map (\<lambda>(pid, col). series_rows pid col)
                        (all_plant_columns read_ghi coord keys))"
  have l: "location_loop read_ghi coord [] keys = Inr ?acc"
    using location_loop_rows[OF assms(2), of read_ghi "[]"] by simp
  have f: "naive_solar sorter read_ghi coord keys y =
             Inr \<lparr>file_name = ''western_Pout_'' @ str_int y @ ''.txt'',
                  sep = CHR 0x09, header = False, file_lines = map csv_line (sorter ?acc)\<rparr>"
    by (simp add: naive_solar_def l to_csv_def output_name_def)
  have s: "sorted (map row_index (sorter ?acc))" "mset (sorter ?acc) = mset ?acc"
    using assms(1) by (simp_all add: sorts_by_index_def)
  show ?thesis
    using f s all_plant_columns_ids[of read_ghi coord keys]
    by (intro exI[of _ "sorter ?acc"]) (simp add: series_rows_fields csv_line_def)
qed

text \<open>
  Two plants at two locations with the same time indices, plant 2 processed first, and an
  all-zero series for plant 1, whose power is then \<open>nan\<close>: the six rows are written,
  ordered by time index.
\<close>

theorem solar_output_written_witness:
  "sorts_by_index (sort_key row_index)
   \<and> (\<exists>rows. naive_solar (sort_key row_index)
                (\<lambda>key. if key = ''a'' then [0, 50, 100] else [0, 0, 0])
                [(''a'', [(2, 20)]), (''b'', [(1, 10)])] [''a'', ''b''] 2016
              = Inr \<lparr>file_name = ''western_Pout_'' @ str_int 2016 @ ''.txt'',
                     sep = CHR 0x09, header = False, file_lines = map csv_line rows\<rparr>
            \<and> sorted (map row_index rows)
            \<and> mset rows = mset [\<lparr>row_index = 1, Pout = Fin 0, plant_id = 2\<rparr>,
                                 \<lparr>row_index = 2, Pout = Fin 30, plant_id = 2\<rparr>,
                                 \<lparr>row_index = 3, Pout = Fin 60, plant_id = 2\<rparr>,
                                 \<lparr>row_index = 1, Pout = NaN, plant_id = 1\<rparr>,
                                 \<lparr>row_index = 2, Pout = NaN, plant_id = 1\<rparr>,
                                 \<lparr>row_index = 3, Pout = NaN, plant_id = 1\<rparr>])
   \<and> naive_solar (sort_key row_index)
        (\<lambda>key. if key = ''a'' then [0, 50, 100] else [0, 0, 0])
        [(''a'', [(2, 20)]), (''b'', [(1, 10)])] [''a'', ''b''] 2016
     = Inr \<lparr>file_name = ''western_Pout_2016.txt'', sep = CHR 0x09, header = False,
            file_lines =
              [[IndexCell 1, IdCell 2, PoutCell (Fin 0)],
               [IndexCell 1, IdCell 1, PoutCell NaN],
               [IndexCell 2, IdCell 2, PoutCell (Fin 30)],
               [IndexCell 2, IdCell 1, PoutCell NaN],
               [IndexCell 3, IdCell 2, PoutCell (Fin 60)],
               [IndexCell 3, IdCell 1, PoutCell NaN]]\<rparr>"
proof -
  let ?ghi = "\<lambda>key. if key = ''a'' then [0, 50, 100] else [0, 0, 0] :: real list"
  let ?coord = "[(''a'', [(2, 20)]), (''b'', [(1, 10 :: real)])] :: (string \<times> (int \<times> real) list) list"
  have k: "\<forall>key\<in>set [''a'', ''b'']. key \<in> fst ` set ?coord" by simp
  have acc: "concat (map (\<lambda>(pid, col). series_rows pid col)
                       (all_plant_columns ?ghi ?coord [''a'', ''b'']))
               = [\<lparr>row_index = 1, Pout = Fin 0, plant_id = 2\<rparr>,
                  \<lparr>row_index = 2, Pout = Fin 30, plant_id = 2\<rparr>,
                  \<lparr>row_index = 3, Pout = Fin 60, plant_id = 2\<rparr>,
                  \<lparr>row_index = 1, Pout = NaN, plant_id = 1\<rparr>,
                  \<lparr>row_index = 2, Pout = NaN, plant_id = 1\<rparr>,
                  \<lparr>row_index = 3, Pout = NaN, plant_id = 1\<rparr>]"
    by code_simp
  have e: "naive_solar (sort_key row_index) ?ghi ?coord [''a'', ''b''] 2016
     = Inr \<lparr>file_name = ''western_Pout_2016.txt'', sep = CHR 0x09, header = False,
            file_lines =
              [[IndexCell 1, IdCell 2, PoutCell (Fin 0)],
               [IndexCell 1, IdCell 1, PoutCell NaN],
               [IndexCell 2, IdCell 2, PoutCell (Fin 30)],
               [IndexCell 2, IdCell 1, PoutCell NaN],
               [IndexCell 3, IdCell 2, PoutCell (Fin 60)],
               [IndexCell 3, IdCell 1, PoutCell NaN]]\<rparr>"
    by code_simp
  from solar_output_written[OF sorts_by_index_sort_key k, of ?ghi 2016]
  obtain rows where "naive_solar (sort_key row_index) ?ghi ?coord [''a'', ''b''] 2016
              = Inr \<lparr>file_name = ''western_Pout_'' @ str_int 2016 @ ''.txt'',
                     sep = CHR 0x09, header = False, file_lines = map csv_line rows\<rparr>"
    and "sorted (map row_index rows)"
    and "mset rows = mset (concat (map (\<lambda>(pid, col). series_rows pid col)
                                     (all_plant_columns ?ghi ?coord [''a'', ''b''])))"
    by blast
  then have "\<exists>rows. naive_solar (sort_key row_index) ?ghi ?coord [''a'', ''b''] 2016
              = Inr \<lparr>file_name = ''western_Pout_'' @ str_int 2016 @ ''.txt'',
                     sep = CHR 0x09, header = False, file_lines = map csv_line rows\<rparr>
            \<and> sorted (map row_index rows)
            \<and> mset rows = mset [\<lparr>row_index = 1, Pout = Fin 0, plant_id = 2\<rparr>,
                                 \<lparr>row_index = 2, Pout = Fin 30, plant_id = 2\<rparr>,
                                 \<lparr>row_index = 3, Pout = Fin 60, plant_id = 2\<rparr>,
                                 \<lparr>row_index = 1, Pout = NaN, plant_id = 1\<rparr>,
                                 \<lparr>row_index = 2, Pout = NaN, plant_id = 1\<rparr>,
                                 \<lparr>row_index = 3, Pout = NaN, plant_id = 1\<rparr>]"
    unfolding acc by blast
  with sorts_by_index_sort_key e show ?thesis by (intro conjI)
qed

text \<open>
  Claim C9 as stated gives the columns of a line as plant identifier and estimated
  power.  \<open>to_csv\<close> is called with \<open>index=True\<close>: the line written for plant 7 at
  time index 1 starts with the index and has three cells.
\<close>

theorem solar_output_line_has_index:
  "naive_solar (sort_key row_index) (\<lambda>key. [4]) [(''a'', [(7, 5)])] [''a''] 2016
     = Inr \<lparr>file_name = ''western_Pout_2016.txt'', sep = CHR 0x09, header = False,
            file_lines = [[IndexCell 1, IdCell 7, PoutCell (Fin 5)]]\<rparr>
   \<and> [IndexCell 1, IdCell 7, PoutCell (Fin 5)] \<noteq> [IdCell 7, PoutCell (Fin 5)]"
  by code_simp

section \<open>Properties of the wind resource data fetcher\<close>

lemma frame_div_columns:
  assumes "frame_div f c = Inr g"
  shows "power g = map (\<lambda>x. x / c) (power f)" "wind_speed g = map (\<lambda>x. x / c) (wind_speed f)"
  using assms by (auto simp: frame_div_def split: if_splits)

text \<open>
  Claim C2 on the code.  The service returns the power series \<open>[10, 20]\<close> and the
  wind-speed series \<open>[4, 6]\<close> for site 7, whose rated capacity is 2.  The fetcher
  stores the power series \<open>[5, 10]\<close> under \<open>2016-01\<close> and site 7, as claimed, but also
  the wind-speed series \<open>[2, 3]\<close>: the division by the capacity reaches both columns.
\<close>

theorem fetcher_divides_wind_speed:
  "get_data_from_NREL_server (\<lambda>site start_t end_t. Inr \<lparr>power = [10, 20], wind_speed = [4, 6]\<rparr>)
     [\<lparr>match_plantID = 1, siteID = 7, match_capacity = 2, dist = 0\<rparr>]
     [\<lparr>year = 2016, month = 1, minutes = 0\<rparr>, \<lparr>year = 2016, month = 1, minutes = 5\<rparr>]
   = Inr [(''2016-01'', [(7, \<lparr>power = [5, 10], wind_speed = [2, 3]\<rparr>)])]"
  by code_simp



section \<open>Properties of the wind farm power scaler\<close>

text \<open>
  When every plant has its match and its site column, the loop leaves, under every plant
  label, the site column times the capacity given last for that plant.  Scaling a column
  and taking hourly means commute.
\<close>

lemma map_of_rev_distinct:
  "distinct (map fst xs) \<Longrightarrow> map_of (rev xs) = map_of xs"
proof (induction xs)
  case Nil
  then show ?case by simp
next
  case (Cons x xs)
  obtain a b where x: "x = (a, b)" by (cases x)
  from Cons.prems have a: "map_of xs a = None" and d: "distinct (map fst xs)"
    by (auto simp: x map_of_eq_None_iff)
  have ih: "map_of (rev xs) = map_of xs" by (rule Cons.IH[OF d])
  show ?case
  proof
    fix q show "map_of (rev (x # xs)) q = map_of (x # xs) q"
      using a by (auto simp: x ih map_add_def split: option.splits)
  qed
qed

lemma scale_loop_success:
  assumes "\<forall>pg\<in>set bus. matched_column P closest (fst pg) = Inr (colf (fst pg))"
  shows "scale_loop P closest bus cols =
           Inr (map (\<lambda>(q, c). case map_of (rev bus) q of
                                  None \<Rightarrow> (q, c)
                                | Some g \<Rightarrow> (q, map (map_option (\<lambda>v. v * g)) (colf q))) cols)"
  using assms
proof (induction bus arbitrary: cols)
  case Nil
  then show ?case by simp
next
  case (Cons pg bus)
  obtain pid g where pg: "pg = (pid, g)" by (cases pg)
  from Cons.prems have m: "matched_column P closest pid = Inr (colf pid)"
    and rest: "\<forall>pg\<in>set bus. matched_column P closest (fst pg) = Inr (colf (fst pg))"
    by (simp_all add: pg)
  have "scale_loop P closest (pg # bus) cols =
          scale_loop P closest bus (set_column pid (map (map_option (\<lambda>v. v * g)) (colf pid)) cols)"
    by (simp add: pg m)
  also have "\<dots> = Inr (map (\<lambda>(q, c). case map_of (rev bus) q of
                                  None \<Rightarrow> (q, c)
                                | Some g \<Rightarrow> (q, map (map_option (\<lambda>v. v * g)) (colf q)))
                       (set_column pid (map (map_option (\<lambda>v. v * g)) (colf pid)) cols))"
    by (rule Cons.IH[OF rest])
  also have "map (\<lambda>(q, c). case map_of (rev bus) q of
                                  None \<Rightarrow> (q, c)
                                | Some g \<Rightarrow> (q, map (map_option (\<lambda>v. v * g)) (colf q)))
                       (set_column pid (map (map_option (\<lambda>v. v * g)) (colf pid)) cols)
           = map (\<lambda>(q, c). case map_of (rev (pg # bus)) q of
                                  None \<Rightarrow> (q, c)
                                | Some g \<Rightarrow> (q, map (map_option (\<lambda>v. v * g)) (colf q))) cols"
    by (auto simp: set_column_def pg map_add_def split: option.splits)
  finally show ?case .
qed

lemma scale_loop_lookups:
  assumes "scale_loop P closest bus cols = Inr cols'"
  shows "\<forall>pg\<in>set bus. \<exists>col. matched_column P closest (fst pg) = Inr col"
  using assms
proof (induction bus arbitrary: cols)
  case Nil
  then show ?case by simp
next
  case (Cons pg bus)
  obtain pid g where pg: "pg = (pid, g)" by (cases pg)
  from Cons.prems obtain col where m: "matched_column P closest pid = Inr col"
    and l: "scale_loop P closest bus (set_column pid (map (map_option (\<lambda>v. v * g)) col) cols) = Inr cols'"
    by (auto simp: pg split: sum.splits)
  from Cons.IH[OF l] m show ?case by (simp add: pg)
qed

lemma bin_values_scaled:
  "bin_values idx (map (map_option f) col) h = map f (bin_values idx col h)"
proof (induction idx arbitrary: col)
  case Nil
  then show ?case by (simp add: bin_values_def)
next
  case (Cons t idx)
  show ?case
  proof (cases col)
    case Nil
    then show ?thesis by (simp add: bin_values_def)
  next
    case (Cons c col')
    with Cons.IH[of col'] show ?thesis
      by (cases c) (simp_all add: bin_values_def)
  qed
qed

lemma mean_scaled: "mean (map (\<lambda>v. c * v) vs) = map_option (\<lambda>v. c * v) (mean vs)"
  by (simp add: mean_def sum_list_const_mult)

lemma resample_mean_scaled:
  "resample_mean idx (map (map_option (\<lambda>v. c * v)) col)
     = map (map_option (\<lambda>v. c * v)) (resample_mean idx col)"
  by (simp add: resample_mean_def bin_values_scaled mean_scaled)


lemma scale_power_distinct:
  assumes d: "distinct (map fst bus)"
    and ok: "\<forall>pg\<in>set bus. matched_column P closest (fst pg) = Inr (colf (fst pg))"
  shows "scale_power_to_plant_capacity P bus closest =
           Inr \<lparr>h_index = hour_bins (t_index P),
                h_columns = map (\<lambda>(q, g). (q, resample_mean (t_index P)
                                   (map (map_option (\<lambda>v. v * g)) (colf q)))) bus\<rparr>"
proof -
  have m: "\<And>q g. (q, g) \<in> set bus \<Longrightarrow> map_of (rev bus) q = Some g"
    using d by (simp add: map_of_rev_distinct)
  have "map ((\<lambda>(pid, col). (pid, resample_mean (t_index P) col)) \<circ>
             (\<lambda>(q, c). case map_of (rev bus) q of
                          None \<Rightarrow> (q, c)
                        | Some g \<Rightarrow> (q, map (map_option (\<lambda>v. v * g)) (colf q))) \<circ>
             (\<lambda>(pid, g). (pid, replicate (length (t_index P)) None))) bus
        = map (\<lambda>(q, g). (q, resample_mean (t_index P)
                                   (map (map_option (\<lambda>v. v * g)) (colf q)))) bus"
    by (rule map_cong[OF refl]) (auto simp: m)
  then show ?thesis
    by (simp add: scale_power_to_plant_capacity_def scale_loop_success[OF ok])
qed

text \<open>
  Claim C8.  Let the plants have distinct identifiers and let the scaler return a table
  for the power table, the plants and the match at hand.  With the same power table and
  match, and the rated capacity of one plant doubled, the scaler returns a table with the
  same hours and the same plant columns, in which every value of that plant's column is
  twice the value it had; an unset cell stays unset.
\<close>

theorem scaling_linearity:
  assumes d: "distinct (map fst wind_farm_bus)"
    and k: "k < length wind_farm_bus"
    and pg: "wind_farm_bus ! k = (p, g)"
    and T: "scale_power_to_plant_capacity NREL_power wind_farm_bus closest = Inr T"
  shows "\<exists>T' col. scale_power_to_plant_capacity NREL_power (wind_farm_bus[k := (p, 2 * g)]) closest
                     = Inr T'
           \<and> h_index T' = h_index T
           \<and> map fst (h_columns T') = map fst (h_columns T)
           \<and> map_of (h_columns T) p = Some col
           \<and> map_of (h_columns T') p = Some (map (map_option (\<lambda>v. 2 * v)) col)"
proof -
  let ?bus' = "wind_farm_bus[k := (p, 2 * g)]"
  let ?idx = "t_index NREL_power"
  define colf where "colf q = projr (matched_column NREL_power closest q)" for q
  let ?H = "\<lambda>bus. map (\<lambda>(q, g). (q, resample_mean ?idx
                                   (map (map_option (\<lambda>v. v * g)) (colf q)))) bus"
  from T obtain cols where
    "scale_loop NREL_power closest wind_farm_bus
       (map (\<lambda>(pid, g). (pid, replicate (length ?idx) None)) wind_farm_bus) = Inr cols"
    by (auto simp: scale_power_to_plant_capacity_def split: sum.splits)
  from scale_loop_lookups[OF this]
  have ok: "\<forall>pg\<in>set wind_farm_bus. matched_column NREL_power closest (fst pg) = Inr (colf (fst pg))"
    by (auto simp: colf_def)
  have fsts: "map fst ?bus' = map fst wind_farm_bus"
    using k pg by (simp add: map_update list_update_same_conv)
  then have d': "distinct (map fst ?bus')" using d by simp
  have "fst ` set ?bus' = fst ` set wind_farm_bus"
    using fsts by (metis set_map)
  with ok have ok': "\<forall>pg\<in>set ?bus'. matched_column NREL_power closest (fst pg) = Inr (colf (fst pg))"
    by (metis (no_types, lifting) imageE imageI)
  have T1: "T = \<lparr>h_index = hour_bins ?idx, h_columns = ?H wind_farm_bus\<rparr>"
    using T scale_power_distinct[OF d ok] by simp
  define T' where "T' = \<lparr>h_index = hour_bins ?idx, h_columns = ?H ?bus'\<rparr>"
  have T2: "scale_power_to_plant_capacity NREL_power ?bus' closest = Inr T'"
    unfolding T'_def by (rule scale_power_distinct[OF d' ok'])
  have keys: "map fst (?H wind_farm_bus) = map fst wind_farm_bus"
    by (induction wind_farm_bus) auto
  have keys': "map fst (?H ?bus') = map fst ?bus'"
    by (induction ?bus') auto
  let ?col = "resample_mean ?idx (map (map_option (\<lambda>v. v * g)) (colf p))"
  have "(p, g) \<in> set wind_farm_bus" using k pg by (metis nth_mem)
  then have "(p, ?col) \<in> set (?H wind_farm_bus)" by force
  then have c1: "map_of (?H wind_farm_bus) p = Some ?col"
    using d keys by (simp del: map_map)
  have "(p, 2 * g) \<in> set ?bus'" using k by (simp add: set_update_memI)
  then have "(p, resample_mean ?idx (map (map_option (\<lambda>v. v * (2 * g))) (colf p))) \<in> set (?H ?bus')"
    by force
  then have c2: "map_of (?H ?bus') p
                   = Some (resample_mean ?idx (map (map_option (\<lambda>v. v * (2 * g))) (colf p)))"
    using d' keys' by (simp del: map_map)
  have "map (map_option (\<lambda>v. v * (2 * g))) (colf p)
          = map (map_option (\<lambda>v. 2 * v)) (map (map_option (\<lambda>v. v * g)) (colf p))"
    by (simp add: option.map_comp comp_def mult.assoc mult.left_commute mult.commute)
  then have c3: "resample_mean ?idx (map (map_option (\<lambda>v. v * (2 * g))) (colf p))
                   = map (map_option (\<lambda>v. 2 * v)) ?col"
    by (simp only: resample_mean_scaled)
  show ?thesis
    using T2 c1 c2 c3 keys keys' fsts by (simp add: T1 T'_def del: map_map)
qed

text \<open>
  Two plants matched to site 7, whose normalized power is 0.2, 0.4 and 0.6 at minutes 0,
  30 and 60.  With capacities 100 and 30 the hourly means are 30, 60 and 9, 18; with the
  first capacity doubled the first plant's column is 60, 120.
\<close>

theorem scaling_linearity_witness:
  "distinct (map fst [(1 :: int, 100 :: real), (2, 30)])
   \<and> scale_power_to_plant_capacity
        \<lparr>t_index = [\<lparr>year = 2016, month = 1, minutes = 0\<rparr>,
                    \<lparr>year = 2016, month = 1, minutes = 30\<rparr>,
                    \<lparr>year = 2016, month = 1, minutes = 60\<rparr>],
         t_columns = [(7, [Some (1 / 5), Some (2 / 5), Some (3 / 5)])]\<rparr>
        [(1, 100), (2, 30)]
        [\<lparr>match_plantID = 1, siteID = 7, match_capacity = 50, dist = 3\<rparr>,
         \<lparr>match_plantID = 2, siteID = 7, match_capacity = 50, dist = 4\<rparr>]
       = Inr \<lparr>h_index = [0, 1],
              h_columns = [(1, [Some 30, Some 60]), (2, [Some 9, Some 18])]\<rparr>
   \<and> (\<exists>T'. scale_power_to_plant_capacity
        \<lparr>t_index = [\<lparr>year = 2016, month = 1, minutes = 0\<rparr>,
                    \<lparr>year = 2016, month = 1, minutes = 30\<rparr>,
                    \<lparr>year = 2016, month = 1, minutes = 60\<rparr>],
         t_columns = [(7, [Some (1 / 5), Some (2 / 5), Some (3 / 5)])]\<rparr>
        [(1, 200), (2, 30)]
        [\<lparr>match_plantID = 1, siteID = 7, match_capacity = 50, dist = 3\<rparr>,
         \<lparr>match_plantID = 2, siteID = 7, match_capacity = 50, dist = 4\<rparr>]
       = Inr T' \<and> map_of (h_columns T') 1 = Some [Some 60, Some 120])"
proof -
  let ?P = "\<lparr>t_index = [\<lparr>year = 2016, month = 1, minutes = 0\<rparr>,
                    \<lparr>year = 2016, month = 1, minutes = 30\<rparr>,
                    \<lparr>year = 2016, month = 1, minutes = 60\<rparr>],
         t_columns = [(7, [Some (1 / 5), Some (2 / 5), Some (3 / 5)])]\<rparr>"
  let ?closest = "[\<lparr>match_plantID = 1, siteID = 7, match_capacity = 50, dist = 3\<rparr>,
         \<lparr>match_plantID = 2, siteID = 7, match_capacity = 50, dist = 4\<rparr>]"
  let ?T = "\<lparr>h_index = [0, 1],
              h_columns = [(1 :: int, [Some (30 :: real), Some 60]), (2, [Some 9, Some 18])]\<rparr>"
  have d: "distinct (map fst [(1 :: int, 100 :: real), (2, 30)])" by simp
  have k: "0 < length [(1 :: int, 100 :: real), (2, 30)]" by simp
  have n: "[(1 :: int, 100 :: real), (2, 30)] ! 0 = (1, 100)" by simp
  have e: "scale_power_to_plant_capacity ?P [(1, 100), (2, 30)] ?closest = Inr ?T"
    by code_simp
  from scaling_linearity[OF d k n e]
  obtain T' col where T': "scale_power_to_plant_capacity ?P
                             ([(1, 100), (2, 30)][0 := (1, 2 * 100)]) ?closest = Inr T'"
    and c: "map_of (h_columns ?T) 1 = Some col"
    and c': "map_of (h_columns T') 1 = Some (map (map_option (\<lambda>v. 2 * v)) col)"
    by blast
  from c have "col = [Some 30, Some 60]" by simp
  with c' have "map_of (h_columns T') 1 = Some [Some 60, Some 120]" by simp
  moreover from T' have "scale_power_to_plant_capacity ?P [(1, 200), (2, 30)] ?closest = Inr T'"
    by simp
  ultimately have "\<exists>T'. scale_power_to_plant_capacity ?P [(1, 200), (2, 30)] ?closest = Inr T'
                     \<and> map_of (h_columns T') 1 = Some [Some 60, Some 120]"
    by blast
  with d e show ?thesis by (intro conjI)
qed


end
